theory Spec2Isabelle
  imports Main
begin

section \<open>Python values\<close>

text \<open>
  The values that reach \<^verbatim>\<open>serialize_field\<close> and \<^verbatim>\<open>generate_pdf\<close> in
  \<^verbatim>\<open>src/app/main.py\<close>. \<open>PDict\<close> carries the \<^verbatim>\<open>items()\<close> of a dict or of a
  dict-like SDK object (a MutableMapping, which has \<^verbatim>\<open>get\<close>) in insertion order, so its
  keys are pairwise different; \<open>PObj\<close> is any other object, given by its attributes (it
  has no \<^verbatim>\<open>get\<close>, no \<^verbatim>\<open>items\<close> and cannot be iterated). A float is carried as a
  mantissa and an exponent; no arithmetic is done on it. Strings are ASCII.
\<close>

datatype pyval =
    PNone
  | PBool bool
  | PInt int
  | PFloat int int
  | PStr string
  | PList "pyval list"
  | PDict "(string \<times> pyval) list"
  | PObj "(string \<times> pyval) list"

datatype pyerr = AttributeError | TypeError

text \<open>\<^verbatim>\<open>obj.items()\<close>: only a mapping has it.\<close>

definition py_items :: "pyval \<Rightarrow> pyerr + (string \<times> pyval) list" where
  "py_items obj = (case obj of PDict ms \<Rightarrow> Inr ms | _ \<Rightarrow> Inl AttributeError)"

text \<open>
  \<^verbatim>\<open>for item in arr\<close>: a list yields its items, a string its one-character strings,
  a dict its keys; nothing else can be iterated.
\<close>

definition py_iter :: "pyval \<Rightarrow> pyerr + pyval list" where
  "py_iter arr =
     (case arr of
        PList xs \<Rightarrow> Inr xs
      | PStr s \<Rightarrow> Inr (map (\<lambda>c. PStr [c]) s)
      | PDict kvs \<Rightarrow> Inr (map (\<lambda>p. PStr (fst p)) kvs)
      | _ \<Rightarrow> Inl TypeError)"

text \<open>\<^verbatim>\<open>getattr(field, attr, None)\<close>: none of the built-in values has one of the probed
  attributes.\<close>

definition py_getattr :: "pyval \<Rightarrow> string \<Rightarrow> pyval" where
  "py_getattr field attr =
     (case field of
        PObj attrs \<Rightarrow> (case map_of attrs attr of Some v \<Rightarrow> v | None \<Rightarrow> PNone)
      | _ \<Rightarrow> PNone)"

text \<open>\<^verbatim>\<open>isinstance(val, (str, int, float, bool))\<close>\<close>

definition is_primitive :: "pyval \<Rightarrow> bool" where
  "is_primitive val =
     (case val of PStr s \<Rightarrow> True | PInt i \<Rightarrow> True | PFloat m e \<Rightarrow> True | PBool b \<Rightarrow> True
      | _ \<Rightarrow> False)"

text \<open>
  \<^verbatim>\<open>str(v)\<close>, which is also what an f-string prints for \<^verbatim>\<open>{v}\<close>. The text of a
  number, a container or an object is CPython's and is taken as the parameter \<open>repr\<close>.
\<close>

definition py_str :: "(pyval \<Rightarrow> string) \<Rightarrow> pyval \<Rightarrow> string" where
  "py_str repr v =
     (case v of
        PNone \<Rightarrow> ''None''
      | PBool b \<Rightarrow> (if b then ''True'' else ''False'')
      | PStr s \<Rightarrow> s
      | _ \<Rightarrow> repr v)"

section \<open>The field normalizer\<close>

text \<open>The loop over the fallback attributes (lines 122 to 129 of \<^verbatim>\<open>main.py\<close>).\<close>

fun probe_attrs :: "(pyval \<Rightarrow> string) \<Rightarrow> pyval \<Rightarrow> string list \<Rightarrow> pyval" where
  "probe_attrs repr field [] = PNone"
| "probe_attrs repr field (attr # rest) =
     (let val = py_getattr field attr in
      if val \<noteq> PNone then (if is_primitive val then val else PStr (py_str repr val))
      else probe_attrs repr field rest)"

text \<open>The measure under which the recursion of \<open>serialize_field\<close> descends.\<close>

primrec msz :: "pyval \<Rightarrow> nat" where
  "msz PNone = 0"
| "msz (PBool b) = 0"
| "msz (PInt i) = 0"
| "msz (PFloat m e) = 0"
| "msz (PStr s) = length s"
| "msz (PList xs) = Suc (sum_list (map msz xs))"
| "msz (PDict kvs) =
     Suc (sum_list (map (\<lambda>p. length (fst p) + snd p) (map (map_prod id msz) kvs)))"
| "msz (PObj attrs) = 0"

lemma msz_lookup: "map_of kvs k = Some v \<Longrightarrow> msz v < msz (PDict kvs)"
  by (induction kvs) (auto split: if_splits)

lemma msz_items: "py_items obj = Inr ms \<Longrightarrow> sum_list (map (\<lambda>p. msz (snd p)) ms) < msz obj"
proof -
  have "sum_list (map (\<lambda>p. msz (snd p)) ms)
        \<le> sum_list (map (\<lambda>p. length (fst p) + snd p) (map (map_prod id msz) ms))" for ms
    by (induction ms) auto
  then show "py_items obj = Inr ms \<Longrightarrow> sum_list (map (\<lambda>p. msz (snd p)) ms) < msz obj"
    by (auto simp: py_items_def less_Suc_eq_le split: pyval.splits)
qed

lemma msz_iter: "py_iter arr = Inr xs \<Longrightarrow> sum_list (map msz xs) \<le> msz arr"
proof -
  have a: "sum_list (map msz (map (\<lambda>c. PStr [c]) s)) = length s" for s
    by (induction s) auto
  have b: "sum_list (map msz (map (\<lambda>p. PStr (fst p)) kvs))
        \<le> sum_list (map (\<lambda>p. length (fst p) + snd p) (map (map_prod id msz) kvs))" for kvs
    by (induction kvs) auto
  show "py_iter arr = Inr xs \<Longrightarrow> sum_list (map msz xs) \<le> msz arr"
    using a b by (auto simp: py_iter_def le_Suc_eq split: pyval.splits)
qed

lemma msz_members_call:
  "map_of kvs k = Some obj \<Longrightarrow> py_items obj = Inr ms
   \<Longrightarrow> sum_list (map (\<lambda>p. msz (snd p)) ms) < msz (PDict kvs)"
  using msz_lookup[of kvs k obj] msz_items[of obj ms] by simp

lemma msz_items_call:
  "map_of kvs k = Some arr \<Longrightarrow> py_iter arr = Inr xs
   \<Longrightarrow> sum_list (map msz xs) < msz (PDict kvs)"
  using msz_lookup[of kvs k arr] msz_iter[of arr xs] by simp

text \<open>
  \<^verbatim>\<open>serialize_field\<close> (lines 89 to 129). \<open>serialize_members\<close> is the dict
  comprehension over \<^verbatim>\<open>obj.items()\<close> and \<open>serialize_items\<close> the list comprehension
  over \<^verbatim>\<open>field["valueArray"]\<close>; both stop at the first call that raises.
  \<open>map_of kvs k\<close> is \<open>None\<close> when \<^verbatim>\<open>k in field\<close> is false and \<open>Some\<close> of
  \<^verbatim>\<open>field[k]\<close> otherwise.
\<close>

function serialize_field :: "(pyval \<Rightarrow> string) \<Rightarrow> pyval \<Rightarrow> pyerr + pyval"
  and serialize_members ::
    "(pyval \<Rightarrow> string) \<Rightarrow> (string \<times> pyval) list \<Rightarrow> pyerr + (string \<times> pyval) list"
  and serialize_items :: "(pyval \<Rightarrow> string) \<Rightarrow> pyval list \<Rightarrow> pyerr + pyval list"
where
  "serialize_field repr field =
     (if field = PNone then Inr PNone
      else
        (case field of
           PDict kvs \<Rightarrow>
             (case map_of kvs ''valueString'' of Some v \<Rightarrow> Inr v | None \<Rightarrow>
              (case map_of kvs ''valueNumber'' of Some v \<Rightarrow> Inr v | None \<Rightarrow>
               (case map_of kvs ''valueDate'' of Some v \<Rightarrow> Inr v | None \<Rightarrow>
                (case map_of kvs ''valueObject'' of
                   Some obj \<Rightarrow>
                     (case py_items obj of
                        Inl e \<Rightarrow> Inl e
                      | Inr ms \<Rightarrow>
                          (case serialize_members repr ms of
                             Inl e \<Rightarrow> Inl e
                           | Inr rs \<Rightarrow> Inr (PDict rs)))
                 | None \<Rightarrow>
                     (case map_of kvs ''valueArray'' of
                        Some arr \<Rightarrow>
                          (case py_iter arr of
                             Inl e \<Rightarrow> Inl e
                           | Inr xs \<Rightarrow>
                               (case serialize_items repr xs of
                                  Inl e \<Rightarrow> Inl e
                                | Inr rs \<Rightarrow> Inr (PList rs)))
                      | None \<Rightarrow> Inr PNone)))))
         | _ \<Rightarrow>
             Inr (probe_attrs repr field
                    [''value_string'', ''value_number'', ''value_date'', ''value''])))"
| "serialize_members repr [] = Inr []"
| "serialize_members repr ((k, v) # ms) =
     (case serialize_field repr v of
        Inl e \<Rightarrow> Inl e
      | Inr w \<Rightarrow>
          (case serialize_members repr ms of
             Inl e \<Rightarrow> Inl e
           | Inr rs \<Rightarrow> Inr ((k, w) # rs)))"
| "serialize_items repr [] = Inr []"
| "serialize_items repr (item # items) =
     (case serialize_field repr item of
        Inl e \<Rightarrow> Inl e
      | Inr w \<Rightarrow>
          (case serialize_items repr items of
             Inl e \<Rightarrow> Inl e
           | Inr rs \<Rightarrow> Inr (w # rs)))"
  by pat_completeness auto
termination
  apply (relation "inv_image (less_than <*lex*> less_than)
         (\<lambda>x. case x of
                 Inl (s, v) \<Rightarrow> (msz v, 0)
               | Inr (Inl (s, ms)) \<Rightarrow> (sum_list (map (\<lambda>p. msz (snd p)) ms), Suc (length ms))
               | Inr (Inr (s, xs)) \<Rightarrow> (sum_list (map msz xs), Suc (length xs)))")
  subgoal by (intro wf_inv_image wf_lex_prod wf_less_than)
  subgoal by (auto simp del: msz.simps intro: msz_members_call msz_items_call)
  subgoal by (auto simp del: msz.simps intro: msz_members_call msz_items_call)
  subgoal by fastforce
  subgoal by fastforce
  subgoal by fastforce
  subgoal by fastforce
  done

declare serialize_field.simps [simp del]

text \<open>
  The fields on which the walk of \<open>serialize_field\<close> meets only what it can read: under
  \<^verbatim>\<open>valueObject\<close> a mapping whose members are such fields, under
  \<^verbatim>\<open>valueArray\<close> something iterable whose items are such fields, and under the
  first primitive key present a value satisfying \<open>leaf\<close>. Only the branch that
  \<open>serialize_field\<close> takes is constrained: a field with several value keys, with none, or
  with unknown keys is well formed, and so is every value that is not dict-like.
\<close>

function wf_field :: "(pyval \<Rightarrow> bool) \<Rightarrow> pyval \<Rightarrow> bool"
  and wf_members :: "(pyval \<Rightarrow> bool) \<Rightarrow> (string \<times> pyval) list \<Rightarrow> bool"
  and wf_items :: "(pyval \<Rightarrow> bool) \<Rightarrow> pyval list \<Rightarrow> bool"
where
  "wf_field leaf field =
     (case field of
        PDict kvs \<Rightarrow>
          (case map_of kvs ''valueString'' of Some v \<Rightarrow> leaf v | None \<Rightarrow>
           (case map_of kvs ''valueNumber'' of Some v \<Rightarrow> leaf v | None \<Rightarrow>
            (case map_of kvs ''valueDate'' of Some v \<Rightarrow> leaf v | None \<Rightarrow>
             (case map_of kvs ''valueObject'' of
                Some obj \<Rightarrow>
                  (case py_items obj of Inl e \<Rightarrow> False | Inr ms \<Rightarrow> wf_members leaf ms)
              | None \<Rightarrow>
                  (case map_of kvs ''valueArray'' of
                     Some arr \<Rightarrow>
                       (case py_iter arr of Inl e \<Rightarrow> False | Inr xs \<Rightarrow> wf_items leaf xs)
                   | None \<Rightarrow> True)))))
      | _ \<Rightarrow> True)"
| "wf_members leaf [] = True"
| "wf_members leaf ((k, v) # ms) = (wf_field leaf v \<and> wf_members leaf ms)"
| "wf_items leaf [] = True"
| "wf_items leaf (item # items) = (wf_field leaf item \<and> wf_items leaf items)"
  by pat_completeness auto
termination
  apply (relation "inv_image (less_than <*lex*> less_than)
         (\<lambda>x. case x of
                 Inl (l, v) \<Rightarrow> (msz v, 0)
               | Inr (Inl (l, ms)) \<Rightarrow> (sum_list (map (\<lambda>p. msz (snd p)) ms), Suc (length ms))
               | Inr (Inr (l, xs)) \<Rightarrow> (sum_list (map msz xs), Suc (length xs)))")
  subgoal by (intro wf_inv_image wf_lex_prod wf_less_than)
  subgoal by (auto simp del: msz.simps intro: msz_members_call msz_items_call)
  subgoal by (auto simp del: msz.simps intro: msz_members_call msz_items_call)
  subgoal by fastforce
  subgoal by fastforce
  subgoal by fastforce
  subgoal by fastforce
  done

declare wf_field.simps [simp del]

lemma msz_member: "p \<in> set kvs \<Longrightarrow> msz (snd p) < msz (PDict kvs)"
  by (induction kvs) auto

lemma msz_item: "x \<in> set xs \<Longrightarrow> msz x < msz (PList xs)"
  by (induction xs) auto

text \<open>
  The fields of the specification's data model, with any of the value slots filled
  (several, one or none): wherever a \<^verbatim>\<open>valueObject\<close> key occurs its value is a
  mapping of such fields, and wherever a \<^verbatim>\<open>valueArray\<close> key occurs its value is a
  list of such fields. The primitive slots may hold anything, and every value that is not
  dict-like counts as a field.
\<close>

function extracted_field :: "pyval \<Rightarrow> bool" where
  "extracted_field field =
     (case field of
        PDict kvs \<Rightarrow>
          (\<forall>p \<in> set kvs.
             (fst p = ''valueObject'' \<longrightarrow>
                (case snd p of
                   PDict ms \<Rightarrow> (\<forall>m \<in> set ms. extracted_field (snd m))
                 | _ \<Rightarrow> False)) \<and>
             (fst p = ''valueArray'' \<longrightarrow>
                (case snd p of
                   PList xs \<Rightarrow> (\<forall>x \<in> set xs. extracted_field x)
                 | _ \<Rightarrow> False)))
      | _ \<Rightarrow> True)"
  by pat_completeness auto
termination
proof (relation "measure msz")
  show "wf (measure msz)" by simp
next
  fix field kvs p ms m
  assume "field = PDict kvs" "p \<in> set kvs" "snd p = PDict ms" "m \<in> set ms"
  then show "(snd m, field) \<in> measure msz"
    using msz_member[of p kvs] msz_member[of m ms] by simp
next
  fix field kvs p xs x
  assume "field = PDict kvs" "p \<in> set kvs" "snd p = PList xs" "x \<in> set xs"
  then show "(x, field) \<in> measure msz"
    using msz_member[of p kvs] msz_item[of x xs] by simp
qed

declare extracted_field.simps [simp del]


text \<open>
  The canonical values of the specification: null, a string, a number, a string-keyed
  mapping of canonical values, a sequence of canonical values.
\<close>

primrec canonical :: "pyval \<Rightarrow> bool" where
  "canonical PNone = True"
| "canonical (PBool b) = False"
| "canonical (PInt i) = True"
| "canonical (PFloat m e) = True"
| "canonical (PStr s) = True"
| "canonical (PList xs) = list_all id (map canonical xs)"
| "canonical (PDict kvs) = list_all snd (map (map_prod id canonical) kvs)"
| "canonical (PObj attrs) = False"

text \<open>The canonical values together with the booleans.\<close>

primrec json_value :: "pyval \<Rightarrow> bool" where
  "json_value PNone = True"
| "json_value (PBool b) = True"
| "json_value (PInt i) = True"
| "json_value (PFloat m e) = True"
| "json_value (PStr s) = True"
| "json_value (PList xs) = list_all id (map json_value xs)"
| "json_value (PDict kvs) = list_all snd (map (map_prod id json_value) kvs)"
| "json_value (PObj attrs) = False"

section \<open>The document renderer\<close>

text \<open>
  The steps of \<^verbatim>\<open>generate_pdf\<close> that build values from the request body. The body
  is a dict (the framework rejects anything else before the function runs). Loading and
  filling the template and printing the page are the work of Jinja2 and Playwright and
  are not modelled.
\<close>

text \<open>Lines 172 and 173: the body is replaced by its \<^verbatim>\<open>data\<close> value when it has
  both a \<^verbatim>\<open>data\<close> and a \<^verbatim>\<open>status\<close> key.\<close>

definition unwrap :: "(string \<times> pyval) list \<Rightarrow> pyval" where
  "unwrap invoice_data =
     (if map_of invoice_data ''data'' \<noteq> None \<and> map_of invoice_data ''status'' \<noteq> None
      then (case map_of invoice_data ''data'' of Some v \<Rightarrow> v | None \<Rightarrow> PDict invoice_data)
      else PDict invoice_data)"

text \<open>\<^verbatim>\<open>d.get(key, dflt)\<close>: only a mapping has the method.\<close>

definition py_get :: "pyval \<Rightarrow> string \<Rightarrow> pyval \<Rightarrow> pyerr + pyval" where
  "py_get d key dflt =
     (case d of
        PDict kvs \<Rightarrow> Inr (case map_of kvs key of Some v \<Rightarrow> v | None \<Rightarrow> dflt)
      | _ \<Rightarrow> Inl AttributeError)"

text \<open>\<^verbatim>\<open>isinstance(v, dict)\<close>\<close>

definition is_dict :: "pyval \<Rightarrow> bool" where
  "is_dict v = (case v of PDict kvs \<Rightarrow> True | _ \<Rightarrow> False)"

text \<open>Lines 176 to 179, on the document left by the unwrap step.\<close>

definition derive_currency :: "pyval \<Rightarrow> pyerr + pyval" where
  "derive_currency invoice_data =
     (case py_get invoice_data ''TotalAmount'' PNone of
        Inl e \<Rightarrow> Inl e
      | Inr total_amount \<Rightarrow>
          (if is_dict total_amount then py_get total_amount ''CurrencyCode'' (PStr '''')
           else Inr (PStr '''')))"

text \<open>Lines 212 and 213, on the same document.\<close>

definition derive_filename :: "(pyval \<Rightarrow> string) \<Rightarrow> pyval \<Rightarrow> pyerr + string" where
  "derive_filename repr invoice_data =
     (case py_get invoice_data ''InvoiceId'' (PStr ''invoice'') of
        Inl e \<Rightarrow> Inl e
      | Inr invoice_id \<Rightarrow> Inr (''invoice_'' @ py_str repr invoice_id @ ''.pdf''))"

section \<open>Failures of the extraction call\<close>

text \<open>
  The two handlers that close the \<^verbatim>\<open>try\<close> of \<^verbatim>\<open>analyze_invoice\<close> (lines 153 to
  156). An \<^verbatim>\<open>HttpResponseError\<close> of the Azure SDK carries the status code of the
  response it was built from, or \<^verbatim>\<open>None\<close> when it was built without a response, and
  a message; every other exception is given by its text.
\<close>

datatype failure = HttpResponseError "int option" string | OtherException string

record http_exception =
  status_code :: "int option"
  detail :: string

definition analyze_invoice_except :: "failure \<Rightarrow> http_exception" where
  "analyze_invoice_except e =
     (case e of
        HttpResponseError code message \<Rightarrow>
          \<lparr>status_code = code, detail = ''Azure Error: '' @ message\<rparr>
      | OtherException msg \<Rightarrow>
          \<lparr>status_code = Some 500, detail = ''Server Error: '' @ msg\<rparr>)"

section \<open>Properties of the normalizer\<close>

lemma serialize_field_dict:
  "serialize_field repr (PDict kvs) =
     (case map_of kvs ''valueString'' of Some v \<Rightarrow> Inr v | None \<Rightarrow>
      (case map_of kvs ''valueNumber'' of Some v \<Rightarrow> Inr v | None \<Rightarrow>
       (case map_of kvs ''valueDate'' of Some v \<Rightarrow> Inr v | None \<Rightarrow>
        (case map_of kvs ''valueObject'' of
           Some obj \<Rightarrow>
             (case py_items obj of
                Inl e \<Rightarrow> Inl e
              | Inr ms \<Rightarrow>
                  (case serialize_members repr ms of
                     Inl e \<Rightarrow> Inl e
                   | Inr rs \<Rightarrow> Inr (PDict rs)))
         | None \<Rightarrow>
             (case map_of kvs ''valueArray'' of
                Some arr \<Rightarrow>
                  (case py_iter arr of
                     Inl e \<Rightarrow> Inl e
                   | Inr xs \<Rightarrow>
                       (case serialize_items repr xs of
                          Inl e \<Rightarrow> Inl e
                        | Inr rs \<Rightarrow> Inr (PList rs)))
              | None \<Rightarrow> Inr PNone)))))"
  by (simp add: serialize_field.simps)

lemma serialize_field_None: "serialize_field repr PNone = Inr PNone"
  by (simp add: serialize_field.simps)

lemma serialize_field_other:
  "field \<noteq> PNone \<Longrightarrow> (\<forall>kvs. field \<noteq> PDict kvs) \<Longrightarrow>
   serialize_field repr field =
     Inr (probe_attrs repr field [''value_string'', ''value_number'', ''value_date'', ''value''])"
  by (cases field) (simp_all add: serialize_field.simps)

lemma wf_field_dict:
  "wf_field leaf (PDict kvs) =
          (case map_of kvs ''valueString'' of Some v \<Rightarrow> leaf v | None \<Rightarrow>
           (case map_of kvs ''valueNumber'' of Some v \<Rightarrow> leaf v | None \<Rightarrow>
            (case map_of kvs ''valueDate'' of Some v \<Rightarrow> leaf v | None \<Rightarrow>
             (case map_of kvs ''valueObject'' of
                Some obj \<Rightarrow>
                  (case py_items obj of Inl e \<Rightarrow> False | Inr ms \<Rightarrow> wf_members leaf ms)
              | None \<Rightarrow>
                  (case map_of kvs ''valueArray'' of
                     Some arr \<Rightarrow>
                       (case py_iter arr of Inl e \<Rightarrow> False | Inr xs \<Rightarrow> wf_items leaf xs)
                   | None \<Rightarrow> True)))))"
  by (simp add: wf_field.simps)

lemma wf_field_other: "(\<forall>kvs. field \<noteq> PDict kvs) \<Longrightarrow> wf_field leaf field"
  by (cases field) (simp_all add: wf_field.simps)

lemma serialize_members_Inr:
  "serialize_members repr ms = Inr rs \<longleftrightarrow>
     list_all2 (\<lambda>m r. fst r = fst m \<and> serialize_field repr (snd m) = Inr (snd r)) ms rs"
proof (induction ms arbitrary: rs)
  case Nil
  show ?case by auto
next
  case (Cons m ms)
  obtain k v where m: "m = (k, v)" by (cases m)
  show ?case
    by (cases rs) (auto simp: m Cons.IH[symmetric] split: sum.splits)
qed

lemma serialize_items_Inr:
  "serialize_items repr xs = Inr rs \<longleftrightarrow>
     list_all2 (\<lambda>x r. serialize_field repr x = Inr r) xs rs"
proof (induction xs arbitrary: rs)
  case Nil
  show ?case by auto
next
  case (Cons x xs)
  show ?case
    by (cases rs) (auto simp: Cons.IH[symmetric] split: sum.splits)
qed

lemma json_value_probe_attrs: "json_value (probe_attrs repr field attrs)"
  by (induction attrs) (auto simp: Let_def is_primitive_def split: pyval.splits)

lemma json_value_PList: "json_value (PList xs) \<longleftrightarrow> (\<forall>x \<in> set xs. json_value x)"
  by (induction xs) auto

lemma json_value_PDict: "json_value (PDict kvs) \<longleftrightarrow> (\<forall>p \<in> set kvs. json_value (snd p))"
  by (induction kvs) auto

lemma serialize_json_aux:
  "(wf_field json_value field \<longrightarrow> (\<forall>v. serialize_field repr field = Inr v \<longrightarrow> json_value v))"
  "(wf_members json_value ms \<longrightarrow>
      (\<forall>rs. serialize_members repr ms = Inr rs \<longrightarrow> (\<forall>p \<in> set rs. json_value (snd p))))"
  "(wf_items json_value xs \<longrightarrow>
      (\<forall>rs. serialize_items repr xs = Inr rs \<longrightarrow> (\<forall>x \<in> set rs. json_value x)))"
proof (induction repr field and repr ms and repr xs
       rule: serialize_field_serialize_members_serialize_items.induct)
  case (1 repr field)
  show ?case
  proof (cases field)
    case (PDict kvs)
    show ?thesis
    proof (cases "map_of kvs ''valueString'' \<noteq> None \<or> map_of kvs ''valueNumber'' \<noteq> None \<or>
                  map_of kvs ''valueDate'' \<noteq> None")
      case True
      then show ?thesis
        unfolding PDict by (auto simp: serialize_field_dict wf_field_dict split: option.splits)
    next
      case False
      then have n: "map_of kvs ''valueString'' = None" "map_of kvs ''valueNumber'' = None"
        "map_of kvs ''valueDate'' = None"
        by auto
      show ?thesis
      proof (cases "map_of kvs ''valueObject''")
        case (Some obj)
        show ?thesis
        proof (cases "py_items obj")
          case (Inl e)
          then show ?thesis
            unfolding PDict using n Some by (simp add: wf_field_dict)
        next
          case (Inr ms)
          have "wf_members json_value ms \<longrightarrow>
            (\<forall>rs. serialize_members repr ms = Inr rs \<longrightarrow> (\<forall>p \<in> set rs. json_value (snd p)))"
            using 1 PDict n Some Inr by simp
          then show ?thesis
            unfolding PDict using n Some Inr
            by (auto simp: wf_field_dict serialize_field_dict json_value_PDict
                simp del: json_value.simps split: sum.splits)
        qed
      next
        case None
        show ?thesis
        proof (cases "map_of kvs ''valueArray''")
          case arr: (Some arr)
          show ?thesis
          proof (cases "py_iter arr")
            case (Inl e)
            then show ?thesis
              unfolding PDict using n None arr by (simp add: wf_field_dict)
          next
            case (Inr xs)
            have "wf_items json_value xs \<longrightarrow>
              (\<forall>rs. serialize_items repr xs = Inr rs \<longrightarrow> (\<forall>x \<in> set rs. json_value x))"
              using 1 PDict n None arr Inr by simp
            then show ?thesis
              unfolding PDict using n None arr Inr
              by (auto simp: wf_field_dict serialize_field_dict json_value_PList
                  simp del: json_value.simps split: sum.splits)
          qed
        next
          case none: None
          show ?thesis
            unfolding PDict using n None none by (simp add: serialize_field_dict)
        qed
      qed
    qed
  qed (simp_all add: serialize_field.simps json_value_probe_attrs del: probe_attrs.simps)
next
  case (2 repr)
  show ?case by simp
next
  case (3 repr k v ms)
  show ?case
  proof (intro impI allI ballI)
    fix rs p
    assume wf: "wf_members json_value ((k, v) # ms)"
      and s: "serialize_members repr ((k, v) # ms) = Inr rs" and p: "p \<in> set rs"
    from s obtain w ws where w: "serialize_field repr v = Inr w"
      and ws: "serialize_members repr ms = Inr ws" and rs: "rs = (k, w) # ws"
      by (auto split: sum.splits)
    have "json_value w"
      using 3(1) wf w by simp
    moreover have "\<forall>q \<in> set ws. json_value (snd q)"
      using 3(2)[OF w] wf ws by simp
    ultimately show "json_value (snd p)"
      using p rs by auto
  qed
next
  case (4 repr)
  show ?case by simp
next
  case (5 repr item items)
  show ?case
  proof (intro impI allI ballI)
    fix rs x
    assume wf: "wf_items json_value (item # items)"
      and s: "serialize_items repr (item # items) = Inr rs" and x: "x \<in> set rs"
    from s obtain w ws where w: "serialize_field repr item = Inr w"
      and ws: "serialize_items repr items = Inr ws" and rs: "rs = w # ws"
      by (auto split: sum.splits)
    have "json_value w"
      using 5(1) wf w by simp
    moreover have "\<forall>y \<in> set ws. json_value y"
      using 5(2)[OF w] wf ws by simp
    ultimately show "json_value x"
      using x rs by auto
  qed
qed

lemma serialize_returns_aux:
  "(wf_field leaf field \<longrightarrow> (\<exists>v. serialize_field repr field = Inr v))"
  "(wf_members leaf ms \<longrightarrow> (\<exists>rs. serialize_members repr ms = Inr rs))"
  "(wf_items leaf xs \<longrightarrow> (\<exists>rs. serialize_items repr xs = Inr rs))"
proof (induction repr field and repr ms and repr xs
       rule: serialize_field_serialize_members_serialize_items.induct)
  case (1 repr field)
  show ?case
  proof (cases field)
    case (PDict kvs)
    show ?thesis
    proof (cases "map_of kvs ''valueString'' \<noteq> None \<or> map_of kvs ''valueNumber'' \<noteq> None \<or>
                  map_of kvs ''valueDate'' \<noteq> None")
      case True
      then show ?thesis
        unfolding PDict by (auto simp: serialize_field_dict split: option.splits)
    next
      case False
      then have n: "map_of kvs ''valueString'' = None" "map_of kvs ''valueNumber'' = None"
        "map_of kvs ''valueDate'' = None"
        by auto
      show ?thesis
      proof (cases "map_of kvs ''valueObject''")
        case (Some obj)
        show ?thesis
        proof (cases "py_items obj")
          case (Inl e)
          then show ?thesis
            unfolding PDict using n Some by (simp add: wf_field_dict)
        next
          case (Inr ms)
          have "wf_members leaf ms \<longrightarrow> (\<exists>rs. serialize_members repr ms = Inr rs)"
            using 1 PDict n Some Inr by simp
          then show ?thesis
            unfolding PDict using n Some Inr
            by (auto simp: wf_field_dict serialize_field_dict)
        qed
      next
        case None
        show ?thesis
        proof (cases "map_of kvs ''valueArray''")
          case arr: (Some arr)
          show ?thesis
          proof (cases "py_iter arr")
            case (Inl e)
            then show ?thesis
              unfolding PDict using n None arr by (simp add: wf_field_dict)
          next
            case (Inr xs)
            have "wf_items leaf xs \<longrightarrow> (\<exists>rs. serialize_items repr xs = Inr rs)"
              using 1 PDict n None arr Inr by simp
            then show ?thesis
              unfolding PDict using n None arr Inr
              by (auto simp: wf_field_dict serialize_field_dict)
          qed
        next
          case none: None
          show ?thesis
            unfolding PDict using n None none by (simp add: serialize_field_dict)
        qed
      qed
    qed
  qed (simp_all add: serialize_field.simps)
next
  case (2 repr)
  show ?case by simp
next
  case (3 repr k v ms)
  then show ?case by (auto split: sum.splits)
next
  case (4 repr)
  show ?case by simp
next
  case (5 repr item items)
  then show ?case by (auto split: sum.splits)
qed
lemma serialize_wf_aux:
  "(\<forall>v. serialize_field repr field = Inr v \<longrightarrow> wf_field (\<lambda>v. True) field)"
  "(\<forall>rs. serialize_members repr ms = Inr rs \<longrightarrow> wf_members (\<lambda>v. True) ms)"
  "(\<forall>rs. serialize_items repr xs = Inr rs \<longrightarrow> wf_items (\<lambda>v. True) xs)"
proof (induction repr field and repr ms and repr xs
       rule: serialize_field_serialize_members_serialize_items.induct)
  case (1 repr field)
  show ?case
  proof (cases field)
    case (PDict kvs)
    show ?thesis
    proof (cases "map_of kvs ''valueString'' \<noteq> None \<or> map_of kvs ''valueNumber'' \<noteq> None \<or>
                  map_of kvs ''valueDate'' \<noteq> None")
      case True
      then show ?thesis
        unfolding PDict by (auto simp: wf_field_dict split: option.splits)
    next
      case False
      then have n: "map_of kvs ''valueString'' = None" "map_of kvs ''valueNumber'' = None"
        "map_of kvs ''valueDate'' = None"
        by auto
      show ?thesis
      proof (cases "map_of kvs ''valueObject''")
        case (Some obj)
        show ?thesis
        proof (cases "py_items obj")
          case (Inl e)
          then show ?thesis
            unfolding PDict using n Some by (simp add: serialize_field_dict)
        next
          case (Inr ms)
          have "\<forall>rs. serialize_members repr ms = Inr rs \<longrightarrow> wf_members (\<lambda>v. True) ms"
            using 1 PDict n Some Inr by simp
          then show ?thesis
            unfolding PDict using n Some Inr
            by (auto simp: wf_field_dict serialize_field_dict split: sum.splits)
        qed
      next
        case None
        show ?thesis
        proof (cases "map_of kvs ''valueArray''")
          case arr: (Some arr)
          show ?thesis
          proof (cases "py_iter arr")
            case (Inl e)
            then show ?thesis
              unfolding PDict using n None arr by (simp add: serialize_field_dict)
          next
            case (Inr xs)
            have "\<forall>rs. serialize_items repr xs = Inr rs \<longrightarrow> wf_items (\<lambda>v. True) xs"
              using 1 PDict n None arr Inr by simp
            then show ?thesis
              unfolding PDict using n None arr Inr
              by (auto simp: wf_field_dict serialize_field_dict split: sum.splits)
          qed
        next
          case none: None
          show ?thesis
            unfolding PDict using n None none by (simp add: wf_field_dict)
        qed
      qed
    qed
  qed (simp_all add: wf_field.simps)
next
  case (2 repr)
  show ?case by simp
next
  case (3 repr k v ms)
  then show ?case by (auto split: sum.splits)
next
  case (4 repr)
  show ?case by simp
next
  case (5 repr item items)
  then show ?case by (auto split: sum.splits)
qed

lemma serialize_field_returns_iff:
  "(\<exists>v. serialize_field repr field = Inr v) \<longleftrightarrow> wf_field (\<lambda>v. True) field"
  using serialize_wf_aux(1)[of repr field] serialize_returns_aux(1)[of "\<lambda>v. True" field repr] by blast

lemma probe_attrs_none:
  "\<forall>a \<in> set attrs. py_getattr field a = PNone \<Longrightarrow> probe_attrs repr field attrs = PNone"
  by (induction attrs) simp_all

text \<open>
  C1, as the specification states it, fails: the attribute fallback lists \<^verbatim>\<open>bool\<close>
  among the types it returns unchanged, so a typed object whose \<^verbatim>\<open>value\<close> is
  \<^verbatim>\<open>True\<close> is normalized to the boolean \<^verbatim>\<open>True\<close>, which is not a canonical value.
\<close>

theorem serialize_field_returns_bool:
  "serialize_field (\<lambda>v. ''?'') (PObj [(''value'', PBool True)]) = Inr (PBool True) \<and>
   \<not> canonical (PBool True)"
  by (simp add: serialize_field_other py_getattr_def is_primitive_def)

text \<open>
  C1, amended. Take a field in which every value that the normalizer returns from under a
  primitive key is null, a boolean, a string, a number, or a mapping or sequence of such
  values (and in which it can read every \<^verbatim>\<open>valueObject\<close> and \<^verbatim>\<open>valueArray\<close>
  it meets). Then the value returned is null, a boolean, a string, a number, a mapping of
  such values or a sequence of such values. A typed object never comes back: the fallback
  returns \<^verbatim>\<open>str\<close>, \<^verbatim>\<open>int\<close>, \<^verbatim>\<open>float\<close> and \<^verbatim>\<open>bool\<close> attribute values as they
  are and any other attribute value as its string.
\<close>

theorem serialize_field_json_shape:
  "wf_field json_value field \<Longrightarrow> serialize_field repr field = Inr v \<Longrightarrow> json_value v"
  using serialize_json_aux(1)[of field repr] by simp

theorem serialize_field_json_shape_witness:
  "wf_field json_value
     (PDict [(''valueObject'',
        PDict [(''Paid'', PObj [(''value'', PBool True)]),
               (''Due'', PObj [(''value_date'', PObj [(''year'', PInt 2024)])]),
               (''Amount'', PDict [(''valueNumber'', PInt 3)])])]) \<and>
   serialize_field (\<lambda>v. ''2024-01-31'')
     (PDict [(''valueObject'',
        PDict [(''Paid'', PObj [(''value'', PBool True)]),
               (''Due'', PObj [(''value_date'', PObj [(''year'', PInt 2024)])]),
               (''Amount'', PDict [(''valueNumber'', PInt 3)])])])
     = Inr (PDict [(''Paid'', PBool True), (''Due'', PStr ''2024-01-31''),
                   (''Amount'', PInt 3)]) \<and>
   json_value (PDict [(''Paid'', PBool True), (''Due'', PStr ''2024-01-31''),
                      (''Amount'', PInt 3)])"
proof -
  let ?field = "PDict [(''valueObject'',
        PDict [(''Paid'', PObj [(''value'', PBool True)]),
               (''Due'', PObj [(''value_date'', PObj [(''year'', PInt 2024)])]),
               (''Amount'', PDict [(''valueNumber'', PInt 3)])])]"
  let ?out = "PDict [(''Paid'', PBool True), (''Due'', PStr ''2024-01-31''),
                     (''Amount'', PInt 3)]"
  have wf: "wf_field json_value ?field"
    by (simp add: wf_field_dict wf_field_other py_items_def)
  have run: "serialize_field (\<lambda>v. ''2024-01-31'') ?field = Inr ?out"
    by (simp add: serialize_field_dict serialize_field_other py_items_def py_getattr_def
        is_primitive_def py_str_def)
  from serialize_field_json_shape [OF wf run] wf run show ?thesis
    by blast
qed

text \<open>
  C3. On a dict-like field the keys \<^verbatim>\<open>valueString\<close>, \<^verbatim>\<open>valueNumber\<close>,
  \<^verbatim>\<open>valueDate\<close> are probed in this order and the value of the first one present is
  returned as it is: the string value wins over the number value, which wins over the
  date value.
\<close>

theorem serialize_field_primitive_priority:
  "(map_of kvs ''valueString'' = Some v \<longrightarrow> serialize_field repr (PDict kvs) = Inr v) \<and>
   (map_of kvs ''valueString'' = None \<and> map_of kvs ''valueNumber'' = Some v
      \<longrightarrow> serialize_field repr (PDict kvs) = Inr v) \<and>
   (map_of kvs ''valueString'' = None \<and> map_of kvs ''valueNumber'' = None \<and>
    map_of kvs ''valueDate'' = Some v
      \<longrightarrow> serialize_field repr (PDict kvs) = Inr v)"
  by (simp add: serialize_field_dict)

theorem serialize_field_primitive_priority_witness:
  "serialize_field (\<lambda>v. ''?'')
     (PDict [(''valueDate'', PStr ''2024-01-31''), (''valueNumber'', PInt 7),
             (''valueString'', PStr ''seven'')]) = Inr (PStr ''seven'') \<and>
   serialize_field (\<lambda>v. ''?'')
     (PDict [(''valueDate'', PStr ''2024-01-31''), (''valueNumber'', PInt 7)]) = Inr (PInt 7) \<and>
   serialize_field (\<lambda>v. ''?'')
     (PDict [(''type'', PStr ''date''), (''valueDate'', PStr ''2024-01-31'')])
     = Inr (PStr ''2024-01-31'')"
  using
    serialize_field_primitive_priority [of
      "[(''valueDate'', PStr ''2024-01-31''), (''valueNumber'', PInt 7),
        (''valueString'', PStr ''seven'')]" "PStr ''seven''" "\<lambda>v. ''?''"]
    serialize_field_primitive_priority [of
      "[(''valueDate'', PStr ''2024-01-31''), (''valueNumber'', PInt 7)]" "PInt 7" "\<lambda>v. ''?''"]
    serialize_field_primitive_priority [of
      "[(''type'', PStr ''date''), (''valueDate'', PStr ''2024-01-31'')]"
      "PStr ''2024-01-31''" "\<lambda>v. ''?''"]
  by simp

text \<open>
  C4. A dict-like field with a \<^verbatim>\<open>valueObject\<close> key and none of the primitive keys,
  whose object value is the mapping \<open>ms\<close>, is normalized to the mapping that has the
  keys of \<open>ms\<close>, in the same order, each with the normalized value of its member. The
  call returns exactly when the call on every member returns.
\<close>

theorem serialize_field_object:
  assumes "map_of kvs ''valueString'' = None"
    and "map_of kvs ''valueNumber'' = None"
    and "map_of kvs ''valueDate'' = None"
    and "map_of kvs ''valueObject'' = Some (PDict ms)"
  shows "serialize_field repr (PDict kvs) = Inr r \<longleftrightarrow>
     (\<exists>rs. r = PDict rs \<and>
        list_all2 (\<lambda>m r. fst r = fst m \<and> serialize_field repr (snd m) = Inr (snd r)) ms rs)"
  using assms
  by (auto simp: serialize_field_dict py_items_def serialize_members_Inr[symmetric]
      split: sum.splits)

theorem serialize_field_object_witness:
  "serialize_field (\<lambda>v. ''?'')
     (PDict [(''type'', PStr ''object''),
             (''valueObject'',
                PDict [(''Amount'', PDict [(''valueNumber'', PInt 120)]),
                       (''CurrencyCode'', PDict [(''valueString'', PStr ''USD'')]),
                       (''Note'', PDict [(''type'', PStr ''string'')])])])
     = Inr (PDict [(''Amount'', PInt 120), (''CurrencyCode'', PStr ''USD''),
                   (''Note'', PNone)])"
proof -
  let ?ms = "[(''Amount'', PDict [(''valueNumber'', PInt 120)]),
              (''CurrencyCode'', PDict [(''valueString'', PStr ''USD'')]),
              (''Note'', PDict [(''type'', PStr ''string'')])]"
  let ?kvs = "[(''type'', PStr ''object''), (''valueObject'', PDict ?ms)]"
  let ?rs = "[(''Amount'', PInt 120), (''CurrencyCode'', PStr ''USD''), (''Note'', PNone)]"
  have h1: "map_of ?kvs ''valueString'' = None" by simp
  have h2: "map_of ?kvs ''valueNumber'' = None" by simp
  have h3: "map_of ?kvs ''valueDate'' = None" by simp
  have h4: "map_of ?kvs ''valueObject'' = Some (PDict ?ms)" by simp
  have members: "list_all2
      (\<lambda>m r. fst r = fst m \<and> serialize_field (\<lambda>v. ''?'') (snd m) = Inr (snd r)) ?ms ?rs"
    by (simp add: serialize_field_dict)
  show ?thesis
    using serialize_field_object [OF h1 h2 h3 h4, of "\<lambda>v. ''?''" "PDict ?rs"] members
    by blast
qed

text \<open>
  C5. A dict-like field with a \<^verbatim>\<open>valueArray\<close> key and none of the primitive or
  object keys, whose array value is the list \<open>xs\<close>, is normalized to the list of the
  normalized items of \<open>xs\<close>, in the order of \<open>xs\<close>. The call returns exactly when the
  call on every item returns.
\<close>

theorem serialize_field_array:
  assumes "map_of kvs ''valueString'' = None"
    and "map_of kvs ''valueNumber'' = None"
    and "map_of kvs ''valueDate'' = None"
    and "map_of kvs ''valueObject'' = None"
    and "map_of kvs ''valueArray'' = Some (PList xs)"
  shows "serialize_field repr (PDict kvs) = Inr r \<longleftrightarrow>
     (\<exists>rs. r = PList rs \<and> list_all2 (\<lambda>x r. serialize_field repr x = Inr r) xs rs)"
  using assms
  by (auto simp: serialize_field_dict py_iter_def serialize_items_Inr[symmetric]
      split: sum.splits)

theorem serialize_field_array_witness:
  "serialize_field (\<lambda>v. ''?'')
     (PDict [(''type'', PStr ''array''),
             (''valueArray'',
                PList [PDict [(''valueString'', PStr ''b'')], PNone,
                       PDict [(''valueString'', PStr ''a'')]])])
     = Inr (PList [PStr ''b'', PNone, PStr ''a''])"
proof -
  let ?xs = "[PDict [(''valueString'', PStr ''b'')], PNone,
              PDict [(''valueString'', PStr ''a'')]]"
  let ?kvs = "[(''type'', PStr ''array''), (''valueArray'', PList ?xs)]"
  let ?rs = "[PStr ''b'', PNone, PStr ''a'']"
  have h1: "map_of ?kvs ''valueString'' = None" by simp
  have h2: "map_of ?kvs ''valueNumber'' = None" by simp
  have h3: "map_of ?kvs ''valueDate'' = None" by simp
  have h4: "map_of ?kvs ''valueObject'' = None" by simp
  have h5: "map_of ?kvs ''valueArray'' = Some (PList ?xs)" by simp
  have items: "list_all2 (\<lambda>x r. serialize_field (\<lambda>v. ''?'') x = Inr r) ?xs ?rs"
    by (simp add: serialize_field_dict serialize_field_None)
  show ?thesis
    using serialize_field_array [OF h1 h2 h3 h4 h5, of "\<lambda>v. ''?''" "PList ?rs"] items
    by blast
qed

lemma extracted_field_PDict:
  "extracted_field (PDict kvs) =
     (\<forall>p \<in> set kvs.
        (fst p = ''valueObject'' \<longrightarrow>
           (case snd p of
              PDict ms \<Rightarrow> (\<forall>m \<in> set ms. extracted_field (snd m))
            | _ \<Rightarrow> False)) \<and>
        (fst p = ''valueArray'' \<longrightarrow>
           (case snd p of
              PList xs \<Rightarrow> (\<forall>x \<in> set xs. extracted_field x)
            | _ \<Rightarrow> False)))"
  by (simp add: extracted_field.simps)

lemma extracted_field_other: "(\<forall>kvs. field \<noteq> PDict kvs) \<Longrightarrow> extracted_field field"
  by (cases field) (simp_all add: extracted_field.simps)

lemma extracted_field_object:
  assumes "extracted_field (PDict kvs)" and "map_of kvs ''valueObject'' = Some obj"
  shows "\<exists>ms. obj = PDict ms \<and> py_items obj = Inr ms \<and> (\<forall>m \<in> set ms. extracted_field (snd m))"
proof -
  have "(''valueObject'', obj) \<in> set kvs"
    using assms(2) by (rule map_of_SomeD)
  then have "case obj of PDict ms \<Rightarrow> (\<forall>m \<in> set ms. extracted_field (snd m)) | _ \<Rightarrow> False"
    using assms(1) unfolding extracted_field_PDict by fastforce
  then show ?thesis
    by (cases obj) (simp_all add: py_items_def)
qed

lemma extracted_field_array:
  assumes "extracted_field (PDict kvs)" and "map_of kvs ''valueArray'' = Some arr"
  shows "\<exists>xs. arr = PList xs \<and> py_iter arr = Inr xs \<and> (\<forall>x \<in> set xs. extracted_field x)"
proof -
  have "(''valueArray'', arr) \<in> set kvs"
    using assms(2) by (rule map_of_SomeD)
  then have "case arr of PList xs \<Rightarrow> (\<forall>x \<in> set xs. extracted_field x) | _ \<Rightarrow> False"
    using assms(1) unfolding extracted_field_PDict by fastforce
  then show ?thesis
    by (cases arr) (simp_all add: py_iter_def)
qed

lemma serialize_extracted_aux:
  "(extracted_field field \<longrightarrow> (\<exists>v. serialize_field repr field = Inr v))"
  "((\<forall>m \<in> set ms. extracted_field (snd m)) \<longrightarrow> (\<exists>rs. serialize_members repr ms = Inr rs))"
  "((\<forall>x \<in> set xs. extracted_field x) \<longrightarrow> (\<exists>rs. serialize_items repr xs = Inr rs))"
proof (induction repr field and repr ms and repr xs
       rule: serialize_field_serialize_members_serialize_items.induct)
  case (1 repr field)
  show ?case
  proof (cases field)
    case (PDict kvs)
    show ?thesis
    proof (cases "map_of kvs ''valueString'' \<noteq> None \<or> map_of kvs ''valueNumber'' \<noteq> None \<or>
                  map_of kvs ''valueDate'' \<noteq> None")
      case True
      then show ?thesis
        unfolding PDict by (auto simp: serialize_field_dict split: option.splits)
    next
      case False
      then have n: "map_of kvs ''valueString'' = None" "map_of kvs ''valueNumber'' = None"
        "map_of kvs ''valueDate'' = None"
        by auto
      show ?thesis
      proof (cases "map_of kvs ''valueObject''")
        case (Some obj)
        show ?thesis
        proof (intro impI)
          assume "extracted_field field"
          then obtain ms where ms: "py_items obj = Inr ms"
            and typed: "\<forall>m \<in> set ms. extracted_field (snd m)"
            using extracted_field_object[of kvs obj] Some PDict by auto
          have "(\<forall>m \<in> set ms. extracted_field (snd m))
                \<longrightarrow> (\<exists>rs. serialize_members repr ms = Inr rs)"
            using 1 PDict n Some ms by simp
          with typed obtain rs where "serialize_members repr ms = Inr rs"
            by blast
          then show "\<exists>v. serialize_field repr field = Inr v"
            unfolding PDict using n Some ms by (simp add: serialize_field_dict)
        qed
      next
        case None
        show ?thesis
        proof (cases "map_of kvs ''valueArray''")
          case arr: (Some arr)
          show ?thesis
          proof (intro impI)
            assume "extracted_field field"
            then obtain xs where xs: "py_iter arr = Inr xs"
              and typed: "\<forall>x \<in> set xs. extracted_field x"
              using extracted_field_array[of kvs arr] arr PDict by auto
            have "(\<forall>x \<in> set xs. extracted_field x)
                  \<longrightarrow> (\<exists>rs. serialize_items repr xs = Inr rs)"
              using 1 PDict n None arr xs by simp
            with typed obtain rs where "serialize_items repr xs = Inr rs"
              by blast
            then show "\<exists>v. serialize_field repr field = Inr v"
              unfolding PDict using n None arr xs by (simp add: serialize_field_dict)
          qed
        next
          case none: None
          show ?thesis
            unfolding PDict using n None none by (simp add: serialize_field_dict)
        qed
      qed
    qed
  qed (simp_all add: serialize_field.simps)
next
  case (2 repr)
  show ?case by simp
next
  case (3 repr k v ms)
  then show ?case by (auto split: sum.splits)
next
  case (4 repr)
  show ?case by simp
next
  case (5 repr item items)
  then show ?case by (auto split: sum.splits)
qed

text \<open>
  C6, as the specification states it, fails: the value under \<^verbatim>\<open>valueObject\<close> is
  read with \<^verbatim>\<open>items()\<close> and the value under \<^verbatim>\<open>valueArray\<close> is iterated
  without a check, so a field whose object value or array value is null makes the
  normalizer raise.
\<close>

theorem serialize_field_raises:
  "serialize_field (\<lambda>v. ''?'') (PDict [(''type'', PStr ''object''), (''valueObject'', PNone)])
     = Inl AttributeError \<and>
   serialize_field (\<lambda>v. ''?'') (PDict [(''type'', PStr ''array''), (''valueArray'', PNone)])
     = Inl TypeError"
  by (simp add: serialize_field_dict py_items_def py_iter_def)

text \<open>
  C6, amended. The normalizer returns on every field in which each \<^verbatim>\<open>valueObject\<close>
  value is a mapping of such fields and each \<^verbatim>\<open>valueArray\<close> value is a list of
  such fields, whichever value keys the field has: several, one or none. It returns null
  on a null input, on a dict-like field with none of the five value keys (the empty
  variant), and on a typed object in which none of the four probed attributes has a
  value.
\<close>

theorem serialize_field_total:
  "(extracted_field field \<longrightarrow> (\<exists>v. serialize_field repr field = Inr v)) \<and>
   serialize_field repr PNone = Inr PNone \<and>
   (map_of kvs ''valueString'' = None \<and> map_of kvs ''valueNumber'' = None \<and>
    map_of kvs ''valueDate'' = None \<and> map_of kvs ''valueObject'' = None \<and>
    map_of kvs ''valueArray'' = None \<longrightarrow> serialize_field repr (PDict kvs) = Inr PNone) \<and>
   ((\<forall>kvs. obj \<noteq> PDict kvs) \<and>
    (\<forall>a \<in> set [''value_string'', ''value_number'', ''value_date'', ''value''].
       py_getattr obj a = PNone) \<longrightarrow> serialize_field repr obj = Inr PNone)"
proof (intro conjI impI)
  assume "extracted_field field"
  then show "\<exists>v. serialize_field repr field = Inr v"
    using serialize_extracted_aux(1)[of field repr] by simp
next
  show "serialize_field repr PNone = Inr PNone"
    by (rule serialize_field_None)
next
  assume "map_of kvs ''valueString'' = None \<and> map_of kvs ''valueNumber'' = None \<and>
    map_of kvs ''valueDate'' = None \<and> map_of kvs ''valueObject'' = None \<and>
    map_of kvs ''valueArray'' = None"
  then show "serialize_field repr (PDict kvs) = Inr PNone"
    by (simp add: serialize_field_dict)
next
  assume a: "(\<forall>kvs. obj \<noteq> PDict kvs) \<and>
    (\<forall>a \<in> set [''value_string'', ''value_number'', ''value_date'', ''value''].
       py_getattr obj a = PNone)"
  show "serialize_field repr obj = Inr PNone"
  proof (cases "obj = PNone")
    case True
    then show ?thesis by (simp add: serialize_field_None)
  next
    case False
    then show ?thesis
      using a serialize_field_other[of obj repr] probe_attrs_none[of _ obj repr] by simp
  qed
qed

theorem serialize_field_total_witness:
  "extracted_field
     (PDict [(''valueObject'',
        PDict [(''Total'', PDict [(''valueNumber'', PInt 3), (''valueArray'', PList [])]),
               (''Lines'', PDict [(''valueArray'', PList [PNone, PDict []])]),
               (''Seen'', PObj [(''value'', PNone)])])]) \<and>
   (\<exists>v. serialize_field (\<lambda>v. ''?'')
     (PDict [(''valueObject'',
        PDict [(''Total'', PDict [(''valueNumber'', PInt 3), (''valueArray'', PList [])]),
               (''Lines'', PDict [(''valueArray'', PList [PNone, PDict []])]),
               (''Seen'', PObj [(''value'', PNone)])])]) = Inr v) \<and>
   serialize_field (\<lambda>v. ''?'') (PDict [(''type'', PStr ''string''), (''confidence'', PInt 0)])
     = Inr PNone \<and>
   serialize_field (\<lambda>v. ''?'') (PObj [(''value'', PNone), (''kind'', PStr ''string'')])
     = Inr PNone"
proof -
  let ?field = "PDict [(''valueObject'',
        PDict [(''Total'', PDict [(''valueNumber'', PInt 3), (''valueArray'', PList [])]),
               (''Lines'', PDict [(''valueArray'', PList [PNone, PDict []])]),
               (''Seen'', PObj [(''value'', PNone)])])]"
  let ?kvs = "[(''type'', PStr ''string''), (''confidence'', PInt 0)]"
  let ?obj = "PObj [(''value'', PNone), (''kind'', PStr ''string'')]"
  have wf: "extracted_field ?field"
    by (simp add: extracted_field_PDict extracted_field_other)
  have empty: "map_of ?kvs ''valueString'' = None \<and> map_of ?kvs ''valueNumber'' = None \<and>
    map_of ?kvs ''valueDate'' = None \<and> map_of ?kvs ''valueObject'' = None \<and>
    map_of ?kvs ''valueArray'' = None"
    by simp
  have attrs: "(\<forall>kvs. ?obj \<noteq> PDict kvs) \<and>
    (\<forall>a \<in> set [''value_string'', ''value_number'', ''value_date'', ''value''].
       py_getattr ?obj a = PNone)"
    by (simp add: py_getattr_def)
  from serialize_field_total [of ?field "\<lambda>v. ''?''" ?kvs ?obj] wf empty attrs
  show ?thesis
    by blast
qed

section \<open>Properties of the renderer\<close>

text \<open>
  C2, as the specification states it, fails: the unwrap step removes one envelope. When
  the \<^verbatim>\<open>data\<close> value of the body is a mapping that itself has a \<^verbatim>\<open>status\<close> and a
  \<^verbatim>\<open>data\<close> key, a second unwrap goes one level further.
\<close>

theorem unwrap_twice_differs:
  "unwrap [(''status'', PStr ''success''),
           (''data'', PDict [(''status'', PStr ''paid''),
                             (''data'', PDict [(''InvoiceId'', PStr ''INV-42'')])])]
     = PDict [(''status'', PStr ''paid''), (''data'', PDict [(''InvoiceId'', PStr ''INV-42'')])] \<and>
   unwrap [(''status'', PStr ''paid''), (''data'', PDict [(''InvoiceId'', PStr ''INV-42'')])]
     \<noteq> unwrap [(''status'', PStr ''success''),
           (''data'', PDict [(''status'', PStr ''paid''),
                             (''data'', PDict [(''InvoiceId'', PStr ''INV-42'')])])]"
  by (simp add: unwrap_def)

text \<open>
  C2, amended. The unwrap step leaves every mapping without a \<^verbatim>\<open>status\<close> key or
  without a \<^verbatim>\<open>data\<close> key as it is, so a document that is already unwrapped passes
  unchanged; and unwrapping twice gives what unwrapping once gives whenever the first
  result is such a mapping.
\<close>

theorem unwrap_no_envelope:
  "(map_of x ''data'' = None \<or> map_of x ''status'' = None \<longrightarrow> unwrap x = PDict x) \<and>
   (unwrap x = PDict y \<and> (map_of y ''data'' = None \<or> map_of y ''status'' = None)
      \<longrightarrow> unwrap y = unwrap x)"
  by (auto simp: unwrap_def)

theorem unwrap_no_envelope_witness:
  "unwrap [(''InvoiceId'', PStr ''INV-42''), (''status'', PStr ''paid'')]
     = PDict [(''InvoiceId'', PStr ''INV-42''), (''status'', PStr ''paid'')] \<and>
   unwrap [(''status'', PStr ''success''), (''data'', PDict [(''InvoiceId'', PStr ''INV-42'')])]
     = PDict [(''InvoiceId'', PStr ''INV-42'')] \<and>
   unwrap [(''InvoiceId'', PStr ''INV-42'')]
     = unwrap [(''status'', PStr ''success''), (''data'', PDict [(''InvoiceId'', PStr ''INV-42'')])]"
proof -
  let ?doc = "[(''InvoiceId'', PStr ''INV-42'')]"
  let ?env = "[(''status'', PStr ''success''), (''data'', PDict ?doc)]"
  let ?bare = "[(''InvoiceId'', PStr ''INV-42''), (''status'', PStr ''paid'')]"
  have a: "map_of ?bare ''data'' = None \<or> map_of ?bare ''status'' = None" by simp
  have b: "unwrap ?env = PDict ?doc" by (simp add: unwrap_def)
  have c: "map_of ?doc ''data'' = None \<or> map_of ?doc ''status'' = None" by simp
  from unwrap_no_envelope [of ?bare] unwrap_no_envelope [of ?env ?doc] a b c
  show ?thesis
    by simp
qed

text \<open>
  The steps after the unwrap step read the document with \<^verbatim>\<open>get\<close>. When the
  \<^verbatim>\<open>data\<close> value of an envelope is not a mapping they raise, and
  \<^verbatim>\<open>generate_pdf\<close> answers with the status code 500.
\<close>

lemma derive_currency_not_mapping:
  "\<not> is_dict (unwrap x) \<Longrightarrow> derive_currency (unwrap x) = Inl AttributeError"
  by (cases "unwrap x") (simp_all add: derive_currency_def py_get_def is_dict_def)

lemma derive_filename_not_mapping:
  "\<not> is_dict (unwrap x) \<Longrightarrow> derive_filename repr (unwrap x) = Inl AttributeError"
  by (cases "unwrap x") (simp_all add: derive_filename_def py_get_def is_dict_def)

text \<open>
  C7. On the document left by the unwrap step, the derived currency is the value under
  \<^verbatim>\<open>CurrencyCode\<close> of the \<^verbatim>\<open>TotalAmount\<close> mapping when both are there; it is the
  empty string when \<^verbatim>\<open>TotalAmount\<close> has no \<^verbatim>\<open>CurrencyCode\<close>, when the document
  has no \<^verbatim>\<open>TotalAmount\<close>, and when \<^verbatim>\<open>TotalAmount\<close> is not a mapping. No case
  raises.
\<close>

theorem derive_currency_cases:
  assumes "unwrap x = PDict d"
  shows
  "(map_of d ''TotalAmount'' = Some (PDict t) \<and> map_of t ''CurrencyCode'' = Some c
      \<longrightarrow> derive_currency (unwrap x) = Inr c) \<and>
   (map_of d ''TotalAmount'' = Some (PDict t) \<and> map_of t ''CurrencyCode'' = None
      \<longrightarrow> derive_currency (unwrap x) = Inr (PStr '''')) \<and>
   (map_of d ''TotalAmount'' = None \<longrightarrow> derive_currency (unwrap x) = Inr (PStr '''')) \<and>
   (map_of d ''TotalAmount'' = Some v \<and> \<not> is_dict v
      \<longrightarrow> derive_currency (unwrap x) = Inr (PStr ''''))"
  using assms by (auto simp: derive_currency_def py_get_def is_dict_def)

theorem derive_currency_cases_witness:
  "derive_currency
     (unwrap [(''status'', PStr ''success''),
              (''data'', PDict [(''TotalAmount'',
                 PDict [(''Amount'', PInt 120), (''CurrencyCode'', PStr ''USD'')])])])
     = Inr (PStr ''USD'') \<and>
   derive_currency (unwrap [(''TotalAmount'', PDict [(''Amount'', PInt 120)])])
     = Inr (PStr '''') \<and>
   derive_currency (unwrap [(''InvoiceId'', PStr ''INV-42'')]) = Inr (PStr '''') \<and>
   derive_currency (unwrap [(''TotalAmount'', PInt 120)]) = Inr (PStr '''')"
proof -
  let ?t = "[(''Amount'', PInt 120), (''CurrencyCode'', PStr ''USD'')]"
  let ?d1 = "[(''TotalAmount'', PDict ?t)]"
  let ?x1 = "[(''status'', PStr ''success''), (''data'', PDict ?d1)]"
  let ?t2 = "[(''Amount'', PInt 120)]"
  let ?x2 = "[(''TotalAmount'', PDict ?t2)]"
  let ?x3 = "[(''InvoiceId'', PStr ''INV-42'')]"
  let ?x4 = "[(''TotalAmount'', PInt 120)]"
  have u1: "unwrap ?x1 = PDict ?d1" by (simp add: unwrap_def)
  have u2: "unwrap ?x2 = PDict ?x2" by (simp add: unwrap_def)
  have u3: "unwrap ?x3 = PDict ?x3" by (simp add: unwrap_def)
  have u4: "unwrap ?x4 = PDict ?x4" by (simp add: unwrap_def)
  have n: "\<not> is_dict (PInt 120)" by (simp add: is_dict_def)
  from derive_currency_cases [OF u1, where t = ?t and c = "PStr ''USD''"]
  have r1: "derive_currency (unwrap ?x1) = Inr (PStr ''USD'')" by simp
  from derive_currency_cases [OF u2, where t = ?t2]
  have r2: "derive_currency (unwrap ?x2) = Inr (PStr '''')" by simp
  from derive_currency_cases [OF u3]
  have r3: "derive_currency (unwrap ?x3) = Inr (PStr '''')" by simp
  from derive_currency_cases [OF u4, where v = "PInt 120"] n
  have r4: "derive_currency (unwrap ?x4) = Inr (PStr '''')" by simp
  from r1 r2 r3 r4 show ?thesis by blast
qed

text \<open>
  C8. On the document left by the unwrap step, the file name is \<^verbatim>\<open>invoice_\<close>, the
  text of the \<^verbatim>\<open>InvoiceId\<close> value (for a string, the string itself) and
  \<^verbatim>\<open>.pdf\<close>; without an \<^verbatim>\<open>InvoiceId\<close> key the token \<^verbatim>\<open>invoice\<close> takes
  its place and the name is \<^verbatim>\<open>invoice_invoice.pdf\<close>.
\<close>

theorem derive_filename_cases:
  assumes "unwrap x = PDict d"
  shows
  "(map_of d ''InvoiceId'' = Some v
      \<longrightarrow> derive_filename repr (unwrap x) = Inr (''invoice_'' @ py_str repr v @ ''.pdf'')) \<and>
   (map_of d ''InvoiceId'' = Some (PStr s)
      \<longrightarrow> derive_filename repr (unwrap x) = Inr (''invoice_'' @ s @ ''.pdf'')) \<and>
   (map_of d ''InvoiceId'' = None
      \<longrightarrow> derive_filename repr (unwrap x) = Inr ''invoice_invoice.pdf'')"
  using assms by (auto simp: derive_filename_def py_get_def py_str_def)

theorem derive_filename_cases_witness:
  "derive_filename (\<lambda>v. ''?'')
     (unwrap [(''status'', PStr ''success''),
              (''data'', PDict [(''TotalAmount'', PDict [(''CurrencyCode'', PStr ''USD'')]),
                                (''InvoiceId'', PStr ''INV-42'')])])
     = Inr ''invoice_INV-42.pdf'' \<and>
   derive_filename (\<lambda>v. ''?'') (unwrap [(''InvoiceId'', PBool True)])
     = Inr ''invoice_True.pdf'' \<and>
   derive_filename (\<lambda>v. ''?'') (unwrap [(''TotalAmount'', PDict [(''CurrencyCode'', PStr ''USD'')])])
     = Inr ''invoice_invoice.pdf''"
proof -
  let ?d1 = "[(''TotalAmount'', PDict [(''CurrencyCode'', PStr ''USD'')]),
              (''InvoiceId'', PStr ''INV-42'')]"
  let ?x1 = "[(''status'', PStr ''success''), (''data'', PDict ?d1)]"
  let ?x2 = "[(''InvoiceId'', PBool True)]"
  let ?x3 = "[(''TotalAmount'', PDict [(''CurrencyCode'', PStr ''USD'')])]"
  have u1: "unwrap ?x1 = PDict ?d1" by (simp add: unwrap_def)
  have u2: "unwrap ?x2 = PDict ?x2" by (simp add: unwrap_def)
  have u3: "unwrap ?x3 = PDict ?x3" by (simp add: unwrap_def)
  from derive_filename_cases [OF u1, where s = "''INV-42''" and repr = "\<lambda>v. ''?''"]
  have r1: "derive_filename (\<lambda>v. ''?'') (unwrap ?x1) = Inr ''invoice_INV-42.pdf''" by simp
  from derive_filename_cases [OF u2, where v = "PBool True" and repr = "\<lambda>v. ''?''"]
  have r2: "derive_filename (\<lambda>v. ''?'') (unwrap ?x2) = Inr ''invoice_True.pdf''"
    by (simp add: py_str_def)
  from derive_filename_cases [OF u3, where repr = "\<lambda>v. ''?''"]
  have r3: "derive_filename (\<lambda>v. ''?'') (unwrap ?x3) = Inr ''invoice_invoice.pdf''" by simp
  from r1 r2 r3 show ?thesis by blast
qed

text \<open>
  C10. The default token is used only when the \<^verbatim>\<open>InvoiceId\<close> key is missing.
  Whenever the key is there, the identifier is the stored value, whatever it is: the name
  is built from the text of that value, and it is \<^verbatim>\<open>invoice_invoice.pdf\<close> only
  if that text is \<^verbatim>\<open>invoice\<close>. A null value gives \<^verbatim>\<open>invoice_None.pdf\<close>, an
  empty string \<^verbatim>\<open>invoice_.pdf\<close> and the boolean false
  \<^verbatim>\<open>invoice_False.pdf\<close>, none of them the default.
\<close>

theorem derive_filename_default_only_absent:
  assumes "unwrap x = PDict d"
  shows
  "(map_of d ''InvoiceId'' = Some v
      \<longrightarrow> derive_filename repr (unwrap x) = Inr (''invoice_'' @ py_str repr v @ ''.pdf'') \<and>
          (derive_filename repr (unwrap x) = Inr ''invoice_invoice.pdf''
             \<longleftrightarrow> py_str repr v = ''invoice'')) \<and>
   (map_of d ''InvoiceId'' = Some PNone
      \<longrightarrow> derive_filename repr (unwrap x) = Inr ''invoice_None.pdf'' \<and>
          derive_filename repr (unwrap x) \<noteq> Inr ''invoice_invoice.pdf'') \<and>
   (map_of d ''InvoiceId'' = Some (PStr '''')
      \<longrightarrow> derive_filename repr (unwrap x) = Inr ''invoice_.pdf'') \<and>
   (map_of d ''InvoiceId'' = Some (PBool False)
      \<longrightarrow> derive_filename repr (unwrap x) = Inr ''invoice_False.pdf'') \<and>
   (map_of d ''InvoiceId'' = None
      \<longrightarrow> derive_filename repr (unwrap x) = Inr ''invoice_invoice.pdf'')"
  using assms by (auto simp: derive_filename_def py_get_def py_str_def)

theorem derive_filename_default_only_absent_witness:
  "derive_filename (\<lambda>v. ''?'')
     (unwrap [(''status'', PStr ''success''),
              (''data'', PDict [(''InvoiceId'', PNone), (''CustomerName'', PStr ''ACME'')])])
     = Inr ''invoice_None.pdf'' \<and>
   derive_filename (\<lambda>v. ''?'') (unwrap [(''InvoiceId'', PStr '''')]) = Inr ''invoice_.pdf'' \<and>
   derive_filename (\<lambda>v. ''?'') (unwrap [(''InvoiceId'', PBool False)])
     = Inr ''invoice_False.pdf'' \<and>
   derive_filename (\<lambda>v. ''?'') (unwrap [(''InvoiceId'', PStr ''A-7'')]) = Inr ''invoice_A-7.pdf'' \<and>
   derive_filename (\<lambda>v. ''?'') (unwrap [(''InvoiceId'', PStr ''A-7'')])
     \<noteq> Inr ''invoice_invoice.pdf'' \<and>
   derive_filename (\<lambda>v. ''?'') (unwrap [(''CustomerName'', PStr ''ACME'')])
     = Inr ''invoice_invoice.pdf''"
proof -
  let ?d1 = "[(''InvoiceId'', PNone), (''CustomerName'', PStr ''ACME'')]"
  let ?x1 = "[(''status'', PStr ''success''), (''data'', PDict ?d1)]"
  let ?x2 = "[(''InvoiceId'', PStr '''')]"
  let ?x3 = "[(''InvoiceId'', PBool False)]"
  let ?x4 = "[(''InvoiceId'', PStr ''A-7'')]"
  let ?x5 = "[(''CustomerName'', PStr ''ACME'')]"
  have u1: "unwrap ?x1 = PDict ?d1" by (simp add: unwrap_def)
  have u2: "unwrap ?x2 = PDict ?x2" by (simp add: unwrap_def)
  have u3: "unwrap ?x3 = PDict ?x3" by (simp add: unwrap_def)
  have u4: "unwrap ?x4 = PDict ?x4" by (simp add: unwrap_def)
  have u5: "unwrap ?x5 = PDict ?x5" by (simp add: unwrap_def)
  from derive_filename_default_only_absent [OF u1, where repr = "\<lambda>v. ''?''"]
  have r1: "derive_filename (\<lambda>v. ''?'') (unwrap ?x1) = Inr ''invoice_None.pdf''" by simp
  from derive_filename_default_only_absent [OF u2, where repr = "\<lambda>v. ''?''"]
  have r2: "derive_filename (\<lambda>v. ''?'') (unwrap ?x2) = Inr ''invoice_.pdf''" by simp
  from derive_filename_default_only_absent [OF u3, where repr = "\<lambda>v. ''?''"]
  have r3: "derive_filename (\<lambda>v. ''?'') (unwrap ?x3) = Inr ''invoice_False.pdf''" by simp
  from derive_filename_default_only_absent
         [OF u4, where repr = "\<lambda>v. ''?''" and v = "PStr ''A-7''"]
  have r4: "derive_filename (\<lambda>v. ''?'') (unwrap ?x4) = Inr ''invoice_A-7.pdf'' \<and>
            derive_filename (\<lambda>v. ''?'') (unwrap ?x4) \<noteq> Inr ''invoice_invoice.pdf''"
    by (simp add: py_str_def)
  from derive_filename_default_only_absent [OF u5, where repr = "\<lambda>v. ''?''"]
  have r5: "derive_filename (\<lambda>v. ''?'') (unwrap ?x5) = Inr ''invoice_invoice.pdf''" by simp
  from r1 r2 r3 r4 r5 show ?thesis by blast
qed

section \<open>Properties of the failure handlers\<close>

text \<open>
  What the two handlers do where the claim C9 holds: a failure that carries a status
  code is handed on with that status code, and a failure that is not an HTTP response
  error is handed on with the status code 500.
\<close>

lemma analyze_invoice_except_status:
  "status_code (analyze_invoice_except (HttpResponseError (Some code) message)) = Some code \<and>
   status_code (analyze_invoice_except (OtherException msg)) = Some 500"
  by (simp add: analyze_invoice_except_def)

text \<open>
  C9. A failure of the extraction call is to be handed on with the upstream status code
  when there is one and with 500 otherwise. For an \<^verbatim>\<open>HttpResponseError\<close> without a
  status code the first handler does not do so: it hands on the missing status code
  itself, where the second handler would have answered 500.
\<close>

theorem analyze_invoice_except_missing_status:
  "status_code (analyze_invoice_except (HttpResponseError None ''Unable to stream download''))
     = None \<and>
   status_code (analyze_invoice_except (HttpResponseError None ''Unable to stream download''))
     \<noteq> Some 500 \<and>
   status_code (analyze_invoice_except (OtherException ''Unable to stream download''))
     = Some 500"
  by (simp add: analyze_invoice_except_def)

end
